theory Spec2Isabelle
  imports Complex_Main "HOL-Library.Word" "HOL-Library.Code_Target_Nat"
begin

unbundle bit_operations_syntax

section \<open>Value encoding (class LookupTables, SudokuSolver.Util)\<close>

text \<open>
  A candidate mask is an element of a \<^verbatim>\<open>Uint16Array\<close>: a \<^typ>\<open>16 word\<close>.  A JavaScript
  bit operation works on the 32-bit integer its operand converts to, so the static
  functions of \<^verbatim>\<open>LookupTables\<close> take and return \<^typ>\<open>32 word\<close>; a mask read from a
  grid enters them through \<^term>\<open>ucast\<close>.
\<close>

type_synonym mask = "16 word"
type_synonym grid = "mask list"

text \<open>
  \<^verbatim>\<open>Math.clz32(v)\<close>: the number of leading zero bits of the 32-bit representation, counted
  from bit 31 downwards; 32 for zero.
\<close>

definition clz32 :: "32 word \<Rightarrow> nat" where
  "clz32 v = length (takeWhile (\<lambda>i. \<not> bit v i) (rev [0..<32]))"

text \<open>
  \<^verbatim>\<open>static fromValue = (i) => { return 1 << (i - 1); }\<close>; the shift count of \<^verbatim>\<open><<\<close> is
  taken modulo 32.
\<close>

definition fromValue :: "int \<Rightarrow> 32 word" where
  "fromValue i = push_bit (nat ((i - 1) mod 32)) 1"

text \<open>\<^verbatim>\<open>static toValue(v) { return 32 - Math.clz32(v); }\<close>\<close>

definition toValue :: "32 word \<Rightarrow> nat" where
  "toValue v = 32 - clz32 v"

text \<open>\<^verbatim>\<open>static minValue(v) { return 32 - Math.clz32(v & -v); }\<close>\<close>

definition minValue :: "32 word \<Rightarrow> nat" where
  "minValue v = 32 - clz32 (v AND - v)"

text \<open>The set bit positions of a 32-bit integer, in increasing order (used as a measure).\<close>

definition bitsOf :: "32 word \<Rightarrow> nat list" where
  "bitsOf v = filter (bit v) [0..<32]"

lemma odd_and_neg: "odd (u::'a::len word) \<Longrightarrow> u AND - u = 1"
proof -
  assume o: "odd u"
  have "u AND NOT (u - 1) = 1"
  proof (rule bit_eqI)
    fix n
    show "bit (u AND NOT (u - 1)) n = bit (1::'a word) n"
    proof (cases n)
      case 0
      then show ?thesis using o by (simp add: bit_0 even_and_iff even_not_iff)
    next
      case (Suc m)
      have "bit u (Suc m) = bit (u - 1) (Suc m)"
        using o by (simp add: odd_bit_iff_bit_pred)
      then show ?thesis using Suc by (simp add: bit_simps)
    qed
  qed
  then show ?thesis by (simp add: minus_eq_not_minus_1)
qed

lemma low_bit_set:
  fixes v :: "'a::len word"
  assumes "v \<noteq> 0"
  shows "bit v (LEAST k. bit v k)" and "i < (LEAST k. bit v k) \<Longrightarrow> \<not> bit v i"
    and "(LEAST k. bit v k) < LENGTH('a)"
proof -
  obtain j where j: "bit v j" using assms by (auto simp: bit_eq_iff)
  show b: "bit v (LEAST k. bit v k)" using j by (rule LeastI)
  show "i < (LEAST k. bit v k) \<Longrightarrow> \<not> bit v i" using not_less_Least by blast
  show "(LEAST k. bit v k) < LENGTH('a)" using b by (rule bit_imp_le_length)
qed

lemma low_bit:
  fixes v :: "'a::len word"
  assumes "v \<noteq> 0"
  shows "v AND - v = 2 ^ (LEAST k. bit v k)"
proof -
  define k where "k = (LEAST k. bit v k)"
  have bk: "bit v k" unfolding k_def by (rule low_bit_set(1)[OF assms])
  have lt: "\<not> bit v i" if "i < k" for i
    using that unfolding k_def by (rule low_bit_set(2)[OF assms])
  have t: "take_bit k v = 0"
    by (rule bit_eqI) (auto simp: bit_take_bit_iff lt)
  have v: "v = push_bit k (drop_bit k v)"
    using bits_ident [of k v] t by simp
  have od: "odd (drop_bit k v)"
    using bk by (simp add: bit_iff_odd_drop_bit)
  have "v AND - v = push_bit k (drop_bit k v) AND - push_bit k (drop_bit k v)"
    using v by simp
  also have "\<dots> = push_bit k (drop_bit k v AND - drop_bit k v)"
    by (simp add: push_bit_minus)
  also have "\<dots> = push_bit k 1" using odd_and_neg [OF od] by simp
  finally show ?thesis by (simp add: k_def)
qed

lemma xor_low_bit:
  fixes v :: "'a::len word"
  assumes "v \<noteq> 0"
  shows "bit (v XOR (v AND - v)) i \<longleftrightarrow> bit v i \<and> i \<noteq> (LEAST k. bit v k)"
  using low_bit_set(1)[OF assms] low_bit_set(3)[OF assms]
  by (auto simp: low_bit[OF assms] bit_simps)

lemma upt_split: "k < n \<Longrightarrow> [0..<n] = [0..<k] @ k # [Suc k..<n]"
proof -
  assume k: "k < n"
  have "[0..<k + (n - k)] = [0..<k] @ [k..<k + (n - k)]" by (rule upt_add_eq_append) simp
  then show ?thesis using k by (simp add: upt_conv_Cons)
qed

lemma bitsOf_step:
  assumes "v \<noteq> 0"
  shows "bitsOf v = (LEAST k. bit v k) # bitsOf (v XOR (v AND - v))"
proof -
  define k where "k = (LEAST k. bit v k)"
  have k: "k < 32" using low_bit_set(3)[OF assms] by (simp add: k_def)
  have bk: "bit v k" using low_bit_set(1)[OF assms] by (simp add: k_def)
  have lt: "\<And>i. i < k \<Longrightarrow> \<not> bit v i" unfolding k_def by (rule low_bit_set(2)[OF assms])
  have s: "[0..<32] = [0..<k] @ k # [Suc k..<32]"
    using k by (rule upt_split)
  have x: "\<And>i. bit (v XOR (v AND - v)) i \<longleftrightarrow> bit v i \<and> i \<noteq> k"
    unfolding k_def by (rule xor_low_bit[OF assms])
  have a: "filter (bit v) [0..<k] = []" using lt by (auto simp: filter_empty_conv)
  have a': "filter (bit (v XOR (v AND - v))) [0..<k] = []"
    using lt x by (auto simp: filter_empty_conv)
  have b: "filter (bit (v XOR (v AND - v))) [Suc k..<32] = filter (bit v) [Suc k..<32]"
    by (rule filter_cong) (auto simp: x)
  show ?thesis unfolding bitsOf_def s k_def[symmetric]
    using a a' b bk x by simp
qed

text \<open>
  \<^verbatim>\<open>static toValuesArray(values)\<close>: the loop takes the lowest set bit with
  \<^verbatim>\<open>values & -values\<close>, removes it with \<^verbatim>\<open>values ^= value\<close> and pushes its value.
\<close>

function toValuesArray :: "32 word \<Rightarrow> nat list" where
  "toValuesArray values =
     (if values = 0 then []
      else (let value = values AND - values
            in toValue value # toValuesArray (values XOR value)))"
  by pat_completeness auto
termination
proof (relation "measure (\<lambda>v. length (bitsOf v))")
  show "wf (measure (\<lambda>v. length (bitsOf v)))" by simp
next
  fix v x :: "32 word"
  assume "v \<noteq> 0" and "x = v AND - v"
  then show "(v XOR x, v) \<in> measure (\<lambda>v. length (bitsOf v))"
    using bitsOf_step[of v] by simp
qed

declare toValuesArray.simps [simp del]

text \<open>\<^verbatim>\<open>static gridToSolution(grid) { return grid.map(value => LookupTables.toValue(value)); }\<close>\<close>

definition gridToSolution :: "grid \<Rightarrow> nat list" where
  "gridToSolution g = map (\<lambda>value. toValue (ucast value)) g"

subsection \<open>Properties of the value encoding\<close>

lemma clz_pow: "k < 32 \<Longrightarrow> clz32 (2 ^ k) = 31 - k"
proof -
  assume k: "k < 32"
  have s: "[0..<32] = [0..<k] @ k # [Suc k..<32]"
    using k by (rule upt_split)
  have "takeWhile (\<lambda>i. \<not> bit (2 ^ k :: 32 word) i) (rev [Suc k..<32] @ k # rev [0..<k])
        = rev [Suc k..<32]"
    using k by (subst takeWhile_append2) (auto simp: bit_simps)
  then show ?thesis unfolding clz32_def s by simp
qed

lemma toValue_pow: "k < 32 \<Longrightarrow> toValue (2 ^ k) = Suc k"
  by (simp add: toValue_def clz_pow)

lemma toValuesArray_bits: "toValuesArray v = map Suc (bitsOf v)"
proof (induction v rule: toValuesArray.induct)
  case (1 v)
  show ?case
  proof (cases "v = 0")
    case True
    then show ?thesis by (simp add: bitsOf_def toValuesArray.simps)
  next
    case False
    have k: "(LEAST k. bit v k) < 32" using low_bit_set(3)[OF False] by simp
    have "toValuesArray v = toValue (v AND - v) # toValuesArray (v XOR (v AND - v))"
      using False by (subst toValuesArray.simps) (simp add: Let_def)
    also have "\<dots> = Suc (LEAST k. bit v k) # map Suc (bitsOf (v XOR (v AND - v)))"
      using 1[OF False refl] k by (simp add: low_bit[OF False] toValue_pow)
    finally show ?thesis using bitsOf_step[OF False] by simp
  qed
qed

lemma bit_ucast_mask: "bit (ucast (m::16 word) :: 32 word) = bit m"
  by (rule ext) (auto simp: bit_ucast_iff dest: bit_imp_le_length)

lemma bitsOf_ucast: "bitsOf (ucast (m::16 word)) = filter (bit m) [0..<16]"
proof -
  have "[0..<16 + 16] = [0..<16] @ [16..<16 + 16]" by (rule upt_add_eq_append) simp
  then have "[0..<32] = [0..<16] @ [16..<32]" by simp
  moreover have "filter (bit m) [16..<32] = []"
    by (auto simp: filter_empty_conv dest: bit_imp_le_length)
  ultimately show ?thesis by (simp add: bitsOf_def bit_ucast_mask)
qed

lemma toValuesArray_mask:
  "toValuesArray (ucast (m::16 word)) = filter (\<lambda>j. bit m (j - 1)) [1..<17]"
proof -
  have "[1..<17] = map Suc [0..<16]" by (simp add: map_Suc_upt)
  then show ?thesis
    by (simp add: toValuesArray_bits bitsOf_ucast filter_map comp_def)
qed

lemma minValue_mask:
  assumes "(m::16 word) \<noteq> 0"
  shows "minValue (ucast m) = Suc (LEAST k. bit m k)"
proof -
  have "\<exists>j. bit m j" using assms by (auto simp: bit_eq_iff)
  then obtain j where "bit (ucast m :: 32 word) j" by (auto simp: bit_ucast_mask)
  then have nz: "(ucast m :: 32 word) \<noteq> 0" by auto
  have k: "(LEAST k. bit m k) < 32" using low_bit_set(3)[OF assms] by simp
  show ?thesis using k
    by (simp add: minValue_def low_bit[OF nz] bit_ucast_mask clz_pow)
qed

lemma toValue_fromValue: "1 \<le> i \<Longrightarrow> i \<le> 32 \<Longrightarrow> int (toValue (fromValue i)) = i"
proof -
  assume a: "1 \<le> i" "i \<le> 32"
  then have "nat ((i - 1) mod 32) < 32" "(i - 1) mod 32 = i - 1" by auto
  then show ?thesis using a by (simp add: fromValue_def toValue_pow)
qed

lemma ucast_fromValue:
  "1 \<le> i \<Longrightarrow> i \<le> 16 \<Longrightarrow> ucast (ucast (fromValue i) :: 16 word) = fromValue i"
proof -
  assume a: "1 \<le> i" "i \<le> 16"
  then have "nat ((i - 1) mod 32) < 16" "(i - 1) mod 32 = i - 1" by auto
  then show ?thesis unfolding fromValue_def
    by (intro bit_eqI) (auto simp: bit_simps)
qed

lemma gridToSolution_fixed:
  assumes "\<forall>v \<in> set vs. 1 \<le> v \<and> v \<le> 16"
  shows "gridToSolution (map (\<lambda>v. ucast (fromValue v)) vs) = map nat vs"
proof -
  have "toValue (ucast (ucast (fromValue v) :: 16 word)) = nat v" if "v \<in> set vs" for v
  proof -
    have b: "1 \<le> v" "v \<le> 16" using that assms by auto
    then have "int (toValue (fromValue v)) = v" by (intro toValue_fromValue) auto
    then have "toValue (fromValue v) = nat v" by linarith
    then show ?thesis using b by (simp add: ucast_fromValue)
  qed
  then show ?thesis by (simp add: gridToSolution_def)
qed

text \<open>
  Claim C10.  The value encoding round-trips: \<open>toValue (fromValue i) = i\<close> for every value
  \<open>1 \<le> i \<le> 16\<close>; for every nonzero 16-bit mask, \<open>minValue\<close> is the smallest value whose
  bit is set; \<open>toValue\<close> of a singleton mask is its value, so \<open>gridToSolution\<close> maps a fully
  fixed grid to its value vector; and \<open>toValuesArray\<close> lists exactly the values whose bits are
  set, in increasing order.
\<close>

theorem value_encoding_roundtrip:
  "(\<forall>i. 1 \<le> i \<and> i \<le> 16 \<longrightarrow> int (toValue (fromValue i)) = i) \<and>
   (\<forall>m::mask. m \<noteq> 0 \<longrightarrow>
      1 \<le> minValue (ucast m) \<and> bit m (minValue (ucast m) - 1) \<and>
      (\<forall>j. 1 \<le> j \<and> bit m (j - 1) \<longrightarrow> minValue (ucast m) \<le> j)) \<and>
   (\<forall>k < 16. toValue (ucast (2 ^ k :: mask)) = Suc k) \<and>
   (\<forall>vs. (\<forall>v \<in> set vs. 1 \<le> v \<and> v \<le> 16) \<longrightarrow>
      gridToSolution (map (\<lambda>v. ucast (fromValue v)) vs) = map nat vs) \<and>
   (\<forall>m::mask. toValuesArray (ucast m) = filter (\<lambda>j. bit m (j - 1)) [1..<17])"
proof (intro conjI allI impI)
  fix i :: int assume "1 \<le> i \<and> i \<le> 16"
  then show "int (toValue (fromValue i)) = i" by (simp add: toValue_fromValue)
next
  fix m :: mask assume m: "m \<noteq> 0"
  show "1 \<le> minValue (ucast m)" by (simp add: minValue_mask[OF m])
  show "bit m (minValue (ucast m) - 1)"
    using low_bit_set(1)[OF m] by (simp add: minValue_mask[OF m])
  fix j assume j: "1 \<le> j \<and> bit m (j - 1)"
  then have "(LEAST k. bit m k) \<le> j - 1" by (intro Least_le) simp
  moreover from j have "1 \<le> j" by simp
  ultimately have "Suc (LEAST k. bit m k) \<le> j" by linarith
  then show "minValue (ucast m) \<le> j" by (simp only: minValue_mask[OF m])
next
  fix k :: nat assume k: "k < 16"
  have "(ucast (2 ^ k :: mask) :: 32 word) = 2 ^ k"
    using k by (intro bit_eqI) (auto simp: bit_simps)
  then show "toValue (ucast (2 ^ k :: mask)) = Suc k" using k by (simp add: toValue_pow)
next
  fix vs :: "int list" assume "\<forall>v \<in> set vs. 1 \<le> v \<and> v \<le> 16"
  then show "gridToSolution (map (\<lambda>v. ucast (fromValue v)) vs) = map nat vs"
    by (rule gridToSolution_fixed)
next
  fix m :: mask
  show "toValuesArray (ucast m) = filter (\<lambda>j. bit m (j - 1)) [1..<17]"
    by (rule toValuesArray_mask)
qed

theorem value_encoding_roundtrip_witness:
  "int (toValue (fromValue 5)) = 5 \<and>
   minValue (ucast (20 :: mask)) = 3 \<and>
   toValue (ucast (2 ^ 8 :: mask)) = 9 \<and>
   gridToSolution [4, 1, 2 :: mask] = [3, 1, 2] \<and>
   toValuesArray (ucast (20 :: mask)) = [3, 5]"
proof -
  note t = value_encoding_roundtrip
  have a: "int (toValue (fromValue 5)) = 5" using t by simp
  have "1 \<le> minValue (ucast (20 :: mask)) \<and> bit (20 :: mask) (minValue (ucast (20 :: mask)) - 1) \<and>
      (\<forall>j. 1 \<le> j \<and> bit (20 :: mask) (j - 1) \<longrightarrow> minValue (ucast (20 :: mask)) \<le> j)"
    using t[THEN conjunct2, THEN conjunct1, rule_format, of 20] by simp
  have b: "minValue (ucast (20 :: mask)) = 3" by code_simp
  have c: "toValue (ucast (2 ^ 8 :: mask)) = 9"
    using t[THEN conjunct2, THEN conjunct2, THEN conjunct1, rule_format, of 8] by simp
  have d: "gridToSolution (map (\<lambda>v. ucast (fromValue v)) [3, 1, 2]) = map nat [3, 1, 2]"
  proof -
    have h: "\<forall>v \<in> set [3, 1, 2 :: int]. 1 \<le> v \<and> v \<le> 16" by simp
    show ?thesis
      by (rule t[THEN conjunct2, THEN conjunct2, THEN conjunct2, THEN conjunct1, THEN spec, THEN mp, OF h])
  qed
  have d': "map (\<lambda>v. ucast (fromValue v) :: mask) [3, 1, 2] = [4, 1, 2]" by (simp add: fromValue_def)
  have e0: "toValuesArray (ucast (20 :: mask)) = filter (\<lambda>j. bit (20 :: mask) (j - 1)) [1..<17]"
    by (rule t[THEN conjunct2, THEN conjunct2, THEN conjunct2, THEN conjunct2, THEN spec])
  have f: "filter (\<lambda>j. bit (20 :: mask) (j - 1)) [1..<17] = [3, 5]" by code_simp
  have e: "toValuesArray (ucast (20 :: mask)) = [3, 5]" using e0 f by (simp only:)
  show ?thesis using a b c d d' e by simp
qed

section \<open>Handler accumulator (SudokuSolver.HandlerAccumulator)\<close>

text \<open>
  The accumulator is an intrusive singly linked list in an \<^verbatim>\<open>Int16Array\<close> indexed by handler
  index: slot \<open>-2\<close> means "not in the list", \<open>-1\<close> ends the list.  The three maps from cells
  to handler indices come from the handler set, which the accumulator only reads; they are
  fields of the record.  A read of a typed array outside its range gives \<^verbatim>\<open>undefined\<close>
  (\<open>None\<close>), for which every comparison is false; a write outside its range is ignored.
\<close>

record accumulator =
  ordinaryHandlers :: "nat list list"
  auxHandlers :: "nat list list"
  exclusionHandlers :: "nat list"
  linkedList :: "int list"
  head :: int
  tail :: int

definition llGet :: "int list \<Rightarrow> int \<Rightarrow> int option" where
  "llGet ll i = (if 0 \<le> i \<and> nat i < length ll then Some (ll ! nat i) else None)"

definition llSet :: "int list \<Rightarrow> int \<Rightarrow> int \<Rightarrow> int list" where
  "llSet ll i v = (if 0 \<le> i \<and> nat i < length ll then ll[nat i := v] else ll)"


text \<open>The body of the loop of \<^verbatim>\<open>_enqueueIndexes\<close> for one index \<open>i\<close>.\<close>

definition enqueueIndex :: "nat \<Rightarrow> accumulator \<Rightarrow> accumulator" where
  "enqueueIndex i a =
     (case llGet (linkedList a) (int i) of
        None \<Rightarrow> a
      | Some l \<Rightarrow>
          if l < - 1 then
            (let a1 = (if head a = - 1 then a\<lparr>head := int i\<rparr>
                       else a\<lparr>linkedList := llSet (linkedList a) (tail a) (int i)\<rparr>);
                 a2 = a1\<lparr>tail := int i\<rparr>
             in a2\<lparr>linkedList := llSet (linkedList a2) (int i) (- 1)\<rparr>)
          else a)"

definition enqueueIndexes :: "nat list \<Rightarrow> accumulator \<Rightarrow> accumulator" where
  "enqueueIndexes indexes a = fold enqueueIndex indexes a"

definition pushIndex :: "nat \<Rightarrow> accumulator \<Rightarrow> accumulator" where
  "pushIndex index a =
     (case llGet (linkedList a) (int index) of
        None \<Rightarrow> a
      | Some l \<Rightarrow>
          if l < - 1 then
            (let a1 = (if head a = - 1 then a\<lparr>tail := int index\<rparr> else a);
                 a2 = a1\<lparr>linkedList := llSet (linkedList a1) (int index) (head a1)\<rparr>
             in a2\<lparr>head := int index\<rparr>)
          else a)"

definition addForFixedCell :: "nat \<Rightarrow> accumulator \<Rightarrow> accumulator" where
  "addForFixedCell cell a = pushIndex (exclusionHandlers a ! cell) a"

definition addAuxForCell :: "nat \<Rightarrow> accumulator \<Rightarrow> accumulator" where
  "addAuxForCell cell a = enqueueIndexes (auxHandlers a ! cell) a"

definition addForCell :: "nat \<Rightarrow> accumulator \<Rightarrow> accumulator" where
  "addForCell cell a = enqueueIndexes (ordinaryHandlers a ! cell) a"

text \<open>
  The loop of \<^verbatim>\<open>clear\<close>.  It stops when \<open>head\<close> is negative; a \<open>head\<close> beyond the array
  reads \<^verbatim>\<open>undefined\<close>, which also stops it.  Every round overwrites a slot with \<open>-2\<close>, so
  the loop terminates on every array, also on one whose links form a cycle.
\<close>

function clearLoop :: "int list \<Rightarrow> int \<Rightarrow> int list" where
  "clearLoop ll h =
     (if 0 \<le> h \<and> nat h < length ll
      then clearLoop (ll[nat h := - 2]) (ll ! nat h)
      else ll)"
  by pat_completeness auto
termination
proof (relation "measure (\<lambda>(ll, h). 2 * length (filter (\<lambda>v. v \<noteq> - 2) ll)
                              + (if 0 \<le> h \<and> nat h < length ll then 1 else 0))")
  show "wf (measure (\<lambda>(ll, h). 2 * length (filter (\<lambda>v. v \<noteq> - 2) ll)
                              + (if 0 \<le> h \<and> nat h < length ll then 1 else 0)))" by simp
next
  fix ll :: "int list" and h :: int
  assume a: "0 \<le> h \<and> nat h < length ll"
  define k where "k = nat h"
  have k: "k < length ll" using a by (simp add: k_def)
  have split: "ll = take k ll @ (ll ! k) # drop (Suc k) ll"
    using k by (simp add: id_take_nth_drop)
  have upd: "ll[k := - 2] = take k ll @ (- 2) # drop (Suc k) ll"
    using k by (simp add: upd_conv_take_nth_drop)
  let ?c = "\<lambda>xs. length (filter (\<lambda>v. v \<noteq> (- 2::int)) xs)"
  have c1: "?c ll = ?c (take k ll) + (if ll ! k \<noteq> - 2 then 1 else 0) + ?c (drop (Suc k) ll)"
    by (subst split) simp
  have c2: "?c (ll[k := - 2]) = ?c (take k ll) + ?c (drop (Suc k) ll)"
    by (subst upd) simp
  show "((ll[nat h := - 2], ll ! nat h), (ll, h)) \<in>
        measure (\<lambda>(ll, h). 2 * length (filter (\<lambda>v. v \<noteq> - 2) ll)
                              + (if 0 \<le> h \<and> nat h < length ll then 1 else 0))"
    using a c1 c2 by (auto simp: k_def)
qed

declare clearLoop.simps [simp del]

definition clear :: "accumulator \<Rightarrow> accumulator" where
  "clear a = a\<lparr>linkedList := clearLoop (linkedList a) (head a), head := - 1\<rparr>"

definition isEmpty :: "accumulator \<Rightarrow> bool" where
  "isEmpty a = (head a = - 1)"

text \<open>
  \<^verbatim>\<open>takeNext\<close> returns the index of the handler at the head (the source returns
  \<^verbatim>\<open>this._handlers[oldHead]\<close>).  Every caller tests \<^verbatim>\<open>isEmpty\<close> first; on a head outside the
  array the source reads \<^verbatim>\<open>undefined\<close> and the result is \<open>None\<close>.
\<close>

definition takeNext :: "accumulator \<Rightarrow> (nat \<times> accumulator) option" where
  "takeNext a =
     (case llGet (linkedList a) (head a) of
        None \<Rightarrow> None
      | Some l \<Rightarrow> Some (nat (head a),
                        a\<lparr>head := l, linkedList := llSet (linkedList a) (head a) (- 2)\<rparr>))"


subsection \<open>The queue the linked list represents\<close>

text \<open>\<open>links ll h q\<close>: following the links of \<open>ll\<close> from \<open>h\<close> visits exactly \<open>q\<close> and ends in \<open>-1\<close>.\<close>

fun links :: "int list \<Rightarrow> int \<Rightarrow> nat list \<Rightarrow> bool" where
  "links ll h [] = (h = - 1)"
| "links ll h (x # xs) = (h = int x \<and> x < length ll \<and> links ll (ll ! x) xs)"

text \<open>
  \<open>queued a q\<close>: the accumulator holds the queue \<open>q\<close>, head first: the links spell \<open>q\<close>, no
  handler occurs twice, every handler outside \<open>q\<close> has slot \<open>-2\<close>, and \<open>tail\<close> is the last
  element when there is one.
\<close>

definition queued :: "accumulator \<Rightarrow> nat list \<Rightarrow> bool" where
  "queued a q \<longleftrightarrow>
     links (linkedList a) (head a) q \<and> distinct q \<and>
     (\<forall>i < length (linkedList a). i \<notin> set q \<longrightarrow> linkedList a ! i = - 2) \<and>
     (q \<noteq> [] \<longrightarrow> tail a = int (last q))"










subsection \<open>Each operation implements its queue operation\<close>




lemma links_unique: "links ll h q \<Longrightarrow> links ll h q' \<Longrightarrow> q = q'"
proof (induction q arbitrary: h q')
  case Nil
  then show ?case by (cases q') auto
next
  case (Cons x xs)
  then show ?case by (cases q') auto
qed

lemma queued_unique: "queued a q \<Longrightarrow> queued a q' \<Longrightarrow> q = q'"
  unfolding queued_def using links_unique by blast







lemma pushIndex_length: "length (linkedList (pushIndex i a)) = length (linkedList a)"
  by (auto simp: pushIndex_def llGet_def llSet_def Let_def split: option.splits)
















section \<open>Constraint handlers and propagation\<close>

text \<open>
  The handler classes are outside the solver: it sees a handler through the interface
  below.  \<open>enforceConsistency\<close> narrows the grid, reports a domain wipeout with \<open>False\<close>
  and names, in call order, the cells it passed to \<^verbatim>\<open>handlerAccumulator.addForCell\<close>;
  \<open>initialize\<close> narrows the initial grid once.  \<open>isHouse\<close> tells the handlers that
  \<^verbatim>\<open>getAllofType(SudokuConstraintHandler.House)\<close> selects.
\<close>

record handler =
  cells :: "nat list"
  exclusionCells :: "nat list"
  essential :: bool
  isHouse :: bool
  initialize :: "grid \<Rightarrow> bool \<times> grid"
  enforceConsistency :: "grid \<Rightarrow> bool \<times> grid \<times> nat list"

text \<open>
  What a call can end in besides a value: the two strings the solver throws, and the
  \<^verbatim>\<open>TypeError\<close> of JavaScript on a property of \<^verbatim>\<open>undefined\<close>.  A call that needs more loop
  rounds than its fuel is \<open>None\<close>.
\<close>

datatype error = IteratorNoLongerValid | StateNotInitial | TypeError

text \<open>
  \<^verbatim>\<open>_enforceConstraints(grid, gridIsComplete, handlerAccumulator)\<close>, with the counter
  \<^verbatim>\<open>constraintsProcessed\<close> as the last component of the state.  With step logs enabled the
  source calls the handler through \<^verbatim>\<open>_debugEnforceConsistency\<close>, which makes the same call
  and returns its result; the log sink is not modelled.
\<close>

fun enforceConstraints ::
  "nat \<Rightarrow> handler list \<Rightarrow> bool \<Rightarrow> grid \<times> accumulator \<times> nat \<Rightarrow>
   (error + bool \<times> grid \<times> accumulator \<times> nat) option" where
  "enforceConstraints 0 hs gridIsComplete (g, acc, processed) = None"
| "enforceConstraints (Suc n) hs gridIsComplete (g, acc, processed) =
     (if isEmpty acc then Some (Inr (True, g, acc, processed))
      else case takeNext acc of
        None \<Rightarrow> Some (Inl TypeError)
      | Some (i, acc1) \<Rightarrow>
          if \<not> i < length hs then Some (Inl TypeError)
          else let c = hs ! i in
            if gridIsComplete \<and> \<not> essential c
            then enforceConstraints n hs gridIsComplete (g, acc1, processed)
            else case enforceConsistency c g of
              (ok, g', added) \<Rightarrow>
                let acc2 = fold addForCell added acc1 in
                if \<not> ok then Some (Inr (False, g', acc2, Suc processed))
                else enforceConstraints n hs gridIsComplete (g', acc2, Suc processed))"

text \<open>
  The propagation loop in the words of the specification, as a relation between the state
  at entry and the result: the queue is empty (true); the popped handler is skipped; the
  handler run returns false (false, the rest of the queue left as it is); the handler run
  returns true and the loop goes on.
\<close>

inductive enforceSpec ::
  "handler list \<Rightarrow> bool \<Rightarrow> grid \<times> accumulator \<times> nat \<Rightarrow> bool \<times> grid \<times> accumulator \<times> nat \<Rightarrow> bool"
  for hs :: "handler list" and gridIsComplete :: bool where
  queueEmpty: "isEmpty acc \<Longrightarrow> enforceSpec hs gridIsComplete (g, acc, p) (True, g, acc, p)"
| skipped: "\<not> isEmpty acc \<Longrightarrow> takeNext acc = Some (i, acc1) \<Longrightarrow> i < length hs \<Longrightarrow>
     gridIsComplete \<and> \<not> essential (hs ! i) \<Longrightarrow>
     enforceSpec hs gridIsComplete (g, acc1, p) r \<Longrightarrow>
     enforceSpec hs gridIsComplete (g, acc, p) r"
| returnedFalse: "\<not> isEmpty acc \<Longrightarrow> takeNext acc = Some (i, acc1) \<Longrightarrow> i < length hs \<Longrightarrow>
     \<not> (gridIsComplete \<and> \<not> essential (hs ! i)) \<Longrightarrow>
     enforceConsistency (hs ! i) g = (False, g', added) \<Longrightarrow>
     enforceSpec hs gridIsComplete (g, acc, p) (False, g', fold addForCell added acc1, Suc p)"
| returnedTrue: "\<not> isEmpty acc \<Longrightarrow> takeNext acc = Some (i, acc1) \<Longrightarrow> i < length hs \<Longrightarrow>
     \<not> (gridIsComplete \<and> \<not> essential (hs ! i)) \<Longrightarrow>
     enforceConsistency (hs ! i) g = (True, g', added) \<Longrightarrow>
     enforceSpec hs gridIsComplete (g', fold addForCell added acc1, Suc p) r \<Longrightarrow>
     enforceSpec hs gridIsComplete (g, acc, p) r"





lemma enforceConstraints_mono:
  "enforceConstraints n hs c (g, acc, p) = Some r \<Longrightarrow>
   enforceConstraints (n + k) hs c (g, acc, p) = Some r"
proof (induction n arbitrary: g acc p)
  case 0
  then show ?case by simp
next
  case (Suc n)
  show ?case
  proof (cases "isEmpty acc")
    case True
    then show ?thesis using Suc.prems by simp
  next
    case False
    show ?thesis
    proof (cases "takeNext acc")
      case None
      then show ?thesis using Suc.prems False by simp
    next
      case (Some a)
      obtain i acc1 where a: "a = (i, acc1)" by (cases a) auto
      show ?thesis
      proof (cases "i < length hs")
        case nin: False
        then show ?thesis using Suc.prems False Some a by simp
      next
        case True
        show ?thesis
        proof (cases "c \<and> \<not> essential (hs ! i)")
          case sk: True
          then have "enforceConstraints n hs c (g, acc1, p) = Some r"
            using Suc.prems False Some a True by simp
          then have "enforceConstraints (n + k) hs c (g, acc1, p) = Some r" by (rule Suc.IH)
          then show ?thesis using False Some a True sk by simp
        next
          case nskip: False
          obtain ok g' added where e: "enforceConsistency (hs ! i) g = (ok, g', added)"
            by (cases "enforceConsistency (hs ! i) g") auto
          show ?thesis
          proof (cases ok)
            case okT: True
            then have "enforceConstraints n hs c (g', fold addForCell added acc1, Suc p) = Some r"
              using Suc.prems False Some a True nskip e by (auto simp: Let_def)
            then have "enforceConstraints (n + k) hs c (g', fold addForCell added acc1, Suc p) = Some r"
              by (rule Suc.IH)
            then show ?thesis using False Some a True nskip e okT by (auto simp: Let_def)
          next
            case nok: False
            then show ?thesis using Suc.prems False Some a True nskip e by (auto simp: Let_def)
          qed
        qed
      qed
    qed
  qed
qed







section \<open>Candidate selector (SudokuSolver.CandidateSelector)\<close>

text \<open>
  Modelled from the spec: \<^verbatim>\<open>countOnes16bit\<close> is not among the sources; by section 3 of the
  specification it is the popcount of a 16-bit candidate mask.
\<close>

definition countOnes16bit :: "mask \<Rightarrow> nat" where
  "countOnes16bit v = length (filter (bit v) [0..<16])"

text \<open>
  The object \<^verbatim>\<open>{value, score, cell0, cell1}\<close> that \<^verbatim>\<open>_scoreHouseCandidateValue\<close> builds and
  \<^verbatim>\<open>_candidateSelectionState\<close> caches (\<open>val\<close> is its field \<^verbatim>\<open>value\<close>).  A score is a quotient
  of a 32-bit integer by a count of at most 16; two such quotients compare as doubles the
  way they compare as rationals, so scores are rationals.
\<close>

record houseCandidate =
  val :: "32 word"
  score :: rat
  cell0 :: nat
  cell1 :: nat

text \<open>
  The selector's own state.  \<open>houseHandlers\<close> and \<open>houseHandlerAccumulator\<close> are the handlers
  and the accumulator of the selector's \<^verbatim>\<open>HandlerSet\<close> of house handlers.  The array
  \<^verbatim>\<open>_backtrackTriggers\<close> is the solver's own array (the reference is passed again on every
  reset), so the functions below take it as the argument \<open>bt\<close>.
\<close>

record candidateSelector =
  cellOrder :: "nat list"
  candidateSelectionState :: "houseCandidate option list"
  houseHandlers :: "handler list"
  houseHandlerAccumulator :: accumulator

text \<open>\<^verbatim>\<open>reset(backtrackTriggers)\<close>\<close>

definition selectorReset :: "candidateSelector \<Rightarrow> candidateSelector" where
  "selectorReset sel =
     sel\<lparr>cellOrder := [0..<length (cellOrder sel)],
         candidateSelectionState := replicate (length (candidateSelectionState sel)) None\<rparr>"

text \<open>\<^verbatim>\<open>_minCountCellIndex(grid, cellOrder, cellDepth)\<close>; the loop runs over the offsets.\<close>

fun minCountLoop :: "grid \<Rightarrow> nat list \<Rightarrow> nat list \<Rightarrow> nat \<times> nat \<Rightarrow> nat" where
  "minCountLoop g order [] (minCount, bestOffset) = bestOffset"
| "minCountLoop g order (i # is) (minCount, bestOffset) =
     (let count = countOnes16bit (g ! (order ! i)) in
      if count < minCount then minCountLoop g order is (count, i)
      else minCountLoop g order is (minCount, bestOffset))"

definition minCountCellIndex :: "grid \<Rightarrow> nat list \<Rightarrow> nat \<Rightarrow> nat" where
  "minCountCellIndex g order cellDepth =
     minCountLoop g order [cellDepth..<length g] (2 ^ 16, 0)"

text \<open>\<^verbatim>\<open>_selectBestCell(grid, cellOrder, cellDepth)\<close>; \<open>count \<le> 1\<close> is the \<^verbatim>\<open>break\<close>.\<close>

fun bestCellLoop :: "int list \<Rightarrow> grid \<Rightarrow> nat list \<Rightarrow> nat list \<Rightarrow> rat \<times> nat \<Rightarrow> rat \<times> nat" where
  "bestCellLoop bt g order [] (maxScore, bestOffset) = (maxScore, bestOffset)"
| "bestCellLoop bt g order (i # is) (maxScore, bestOffset) =
     (let cell = order ! i; count = countOnes16bit (g ! cell) in
      if count \<le> 1 then (- 1, i)
      else let score = of_int (bt ! cell) / of_nat count in
        if score > maxScore then bestCellLoop bt g order is (score, i)
        else bestCellLoop bt g order is (maxScore, bestOffset))"

definition selectBestCell :: "int list \<Rightarrow> grid \<Rightarrow> nat list \<Rightarrow> nat \<Rightarrow> nat" where
  "selectBestCell bt g order cellDepth =
     (let (maxScore, bestOffset) = bestCellLoop bt g order [cellDepth..<length g] (- 1, 0) in
      if maxScore = 0 then minCountCellIndex g order cellDepth else bestOffset)"

text \<open>
  \<^verbatim>\<open>_scoreHouseCandidateValue(grid, cells, v)\<close>: the last two cells of the house that hold
  \<open>v\<close>, the one with the larger backtrack trigger first.
\<close>

definition scoreHouseCandidateValue ::
  "int list \<Rightarrow> grid \<Rightarrow> nat list \<Rightarrow> 32 word \<Rightarrow> houseCandidate" where
  "scoreHouseCandidateValue bt g cs v =
     (let (c0, c1) = fold (\<lambda>c (c0, c1). if ucast (g ! c) AND v \<noteq> 0 then (c1, c) else (c0, c1))
                          cs (0, 0);
          bt0 = bt ! c0; bt1 = bt ! c1
      in if bt0 < bt1
         then \<lparr>val = v, score = of_int bt1 / 2, cell0 = c1, cell1 = c0\<rparr>
         else \<lparr>val = v, score = of_int bt0 / 2, cell0 = c0, cell1 = c1\<rparr>)"

text \<open>
  The loop \<^verbatim>\<open>while (exactlyTwo) { let v = exactlyTwo & -exactlyTwo; exactlyTwo ^= v; ... }\<close>
  visits the set bits from the lowest upwards.
\<close>

function lowBitsLoop :: "32 word \<Rightarrow> 32 word list" where
  "lowBitsLoop x = (if x = 0 then [] else (let v = x AND - x in v # lowBitsLoop (x XOR v)))"
  by pat_completeness auto
termination
proof (relation "measure (\<lambda>v. length (bitsOf v))")
  show "wf (measure (\<lambda>v. length (bitsOf v)))" by simp
next
  fix x v :: "32 word"
  assume "x \<noteq> 0" and "v = x AND - x"
  then show "(x XOR v, x) \<in> measure (\<lambda>v. length (bitsOf v))"
    using bitsOf_step[of x] by simp
qed

declare lowBitsLoop.simps [simp del]

text \<open>The three accumulators of the house scan: values seen, seen twice, seen three times.\<close>

definition houseValueSets :: "grid \<Rightarrow> nat list \<Rightarrow> 32 word \<times> 32 word \<times> 32 word" where
  "houseValueSets g cs =
     fold (\<lambda>c (allValues, moreThanOne, moreThanTwo).
             let v = ucast (g ! c) in
             (allValues OR v, moreThanOne OR (allValues AND v), moreThanTwo OR (moreThanOne AND v)))
          cs (0, 0, 0)"

definition exactlyTwo :: "grid \<Rightarrow> nat list \<Rightarrow> 32 word" where
  "exactlyTwo g cs = (let (allValues, moreThanOne, moreThanTwo) = houseValueSets g cs
                      in moreThanOne AND NOT moreThanTwo)"

definition betterCandidate :: "houseCandidate \<Rightarrow> houseCandidate \<Rightarrow> houseCandidate" where
  "betterCandidate result bestResult = (if score result > score bestResult then result else bestResult)"

definition scanHouse :: "int list \<Rightarrow> grid \<Rightarrow> nat list \<Rightarrow> houseCandidate \<Rightarrow> houseCandidate" where
  "scanHouse bt g cs bestResult =
     fold (\<lambda>v best. betterCandidate (scoreHouseCandidateValue bt g cs v) best)
          (lowBitsLoop (exactlyTwo g cs)) bestResult"

text \<open>
  The loop \<^verbatim>\<open>while (!handlerAccumulator.isEmpty()) { handler = handlerAccumulator.takeNext(); ... }\<close>
  of \<^verbatim>\<open>_findCandidatesByHouse\<close> adds nothing to the accumulator, so it is the list of
  the handlers it pops.  It ends on every array, as \<open>clearLoop\<close> does.  A head that is neither
  \<open>-1\<close> nor an index cannot arise from the operations of the accumulator (\<open>queued\<close>); the loop
  of the model stops there.
\<close>

function drainLoop :: "accumulator \<Rightarrow> nat list \<times> accumulator" where
  "drainLoop a =
     (if isEmpty a then ([], a)
      else case takeNext a of
        None \<Rightarrow> ([], a)
      | Some (i, a') \<Rightarrow> (let (is, a'') = drainLoop a' in (i # is, a'')))"
  by pat_completeness auto
termination
proof (relation "measure (\<lambda>a. 2 * length (filter (\<lambda>v. v \<noteq> - 2) (linkedList a))
                    + (if 0 \<le> head a \<and> nat (head a) < length (linkedList a) then 1 else 0))")
  show "wf (measure (\<lambda>a. 2 * length (filter (\<lambda>v. v \<noteq> - 2) (linkedList a))
                    + (if 0 \<le> head a \<and> nat (head a) < length (linkedList a) then 1 else 0)))"
    by simp
next
  fix a :: accumulator and x2 :: "nat \<times> accumulator" and i :: nat and a' :: accumulator
  assume t: "takeNext a = Some x2" "(i, a') = x2"
  let ?ll = "linkedList a"
  define k where "k = nat (head a)"
  have a: "0 \<le> head a" "k < length ?ll" and a': "linkedList a' = ?ll[k := - 2]" "head a' = ?ll ! k"
    using t by (auto simp: takeNext_def llGet_def llSet_def k_def split: if_splits)
  have split: "?ll = take k ?ll @ (?ll ! k) # drop (Suc k) ?ll"
    using a by (simp add: id_take_nth_drop)
  have upd: "?ll[k := - 2] = take k ?ll @ (- 2) # drop (Suc k) ?ll"
    using a by (simp add: upd_conv_take_nth_drop)
  let ?c = "\<lambda>xs. length (filter (\<lambda>v. v \<noteq> (- 2::int)) xs)"
  have c1: "?c ?ll = ?c (take k ?ll) + (if ?ll ! k \<noteq> - 2 then 1 else 0) + ?c (drop (Suc k) ?ll)"
    by (subst split) simp
  have c2: "?c (?ll[k := - 2]) = ?c (take k ?ll) + ?c (drop (Suc k) ?ll)"
    by (subst upd) simp
  show "(a', a) \<in> measure (\<lambda>a. 2 * length (filter (\<lambda>v. v \<noteq> - 2) (linkedList a))
                    + (if 0 \<le> head a \<and> nat (head a) < length (linkedList a) then 1 else 0))"
    using a a' c1 c2 by (auto simp: k_def)
qed

declare drainLoop.simps [simp del]

text \<open>\<^verbatim>\<open>_findCandidatesByHouse(grid, score)\<close>; \<^verbatim>\<open>Math.ceil(score * 2) | 0\<close> is \<open>\<lceil>score * 2\<rceil>\<close>.\<close>

definition findCandidatesByHouse ::
  "candidateSelector \<Rightarrow> int list \<Rightarrow> grid \<Rightarrow> rat \<Rightarrow> houseCandidate \<times> candidateSelector" where
  "findCandidatesByHouse sel bt g sc =
     (let minBt = \<lceil>sc * 2\<rceil>;
          acc1 = fold (\<lambda>i a. if bt ! i \<ge> minBt \<and> (g ! i) AND (g ! i - 1) \<noteq> 0
                              then addForCell i a else a)
                      [0..<length g] (houseHandlerAccumulator sel);
          (is, acc2) = drainLoop acc1;
          bestResult = fold (\<lambda>i best. scanHouse bt g (cells (houseHandlers sel ! i)) best) is
                            \<lparr>val = 0, score = - 1, cell0 = 0, cell1 = 0\<rparr>
      in (bestResult, sel\<lparr>houseHandlerAccumulator := acc2\<rparr>))"

text \<open>
  \<^verbatim>\<open>cellOrder.indexOf(x, from)\<close>: \<open>-1\<close> when \<open>x\<close> does not occur.  \<open>cellOrder\<close> is a
  permutation of the cell indices (reset makes it one and the selector only swaps), so a
  cell of a handler occurs in it; where the source uses the index without a test the
  model converts it with \<open>nat\<close>.
\<close>

definition indexOf :: "nat list \<Rightarrow> nat \<Rightarrow> nat \<Rightarrow> int" where
  "indexOf xs x from = (case filter (\<lambda>i. xs ! i = x) [from..<length xs] of
                          [] \<Rightarrow> - 1 | i # _ \<Rightarrow> int i)"

text \<open>\<^verbatim>\<open>_selectBestCandidate(grid, cellOrder, cellDepth, isNewNode)\<close>, returning
  \<open>(cellOffset, value, count)\<close> and the selector.\<close>

definition selectBestCandidate ::
  "candidateSelector \<Rightarrow> int list \<Rightarrow> grid \<Rightarrow> nat \<Rightarrow> bool \<Rightarrow> (nat \<times> 32 word \<times> nat) \<times> candidateSelector" where
  "selectBestCandidate sel bt g cellDepth isNewNode =
     (case candidateSelectionState sel ! cellDepth of
        Some state \<Rightarrow>
          ((nat (indexOf (cellOrder sel) (cell1 state) 0), val state, 1),
           sel\<lparr>candidateSelectionState := (candidateSelectionState sel)[cellDepth := None]\<rparr>)
      | None \<Rightarrow>
          (let firstValue = g ! (cellOrder sel ! cellDepth) in
           if firstValue AND (firstValue - 1) = 0
           then ((cellDepth, ucast firstValue, if firstValue \<noteq> 0 then 1 else 0), sel)
           else
             (let cellOffset = selectBestCell bt g (cellOrder sel) cellDepth;
                  cell = cellOrder sel ! cellOffset;
                  values = (ucast (g ! cell) :: 32 word);
                  value = values AND - values;
                  count = countOnes16bit (g ! cell)
              in if isNewNode \<and> count > 2 \<and> bt ! cell > 0
                 then
                   (let sc = of_int (bt ! cell) / of_nat count;
                        (result, sel1) = findCandidatesByHouse sel bt g sc
                    in if score result \<ge> sc
                       then ((nat (indexOf (cellOrder sel1) (cell0 result) 0), val result, 2),
                             sel1\<lparr>candidateSelectionState :=
                                     (candidateSelectionState sel1)[cellDepth := Some result]\<rparr>)
                       else ((cellOffset, value, count), sel1))
                 else ((cellOffset, value, count), sel))))"


text \<open>
  Step mode: \<^verbatim>\<open>stepGuides\<close> is a \<^verbatim>\<open>Map\<close> from step numbers to objects with optional fields
  \<^verbatim>\<open>cell\<close> and \<^verbatim>\<open>value\<close>; it is \<^verbatim>\<open>null\<close> until the caller sets it.  The source tests the
  fields for truthiness, so a guide for cell 0 or value 0 counts as absent.
\<close>

record guide =
  guideCell :: "nat option"
  guideValue :: "int option"

record stepState =
  stepGuides :: "(nat \<Rightarrow> guide option) option"
  step :: nat
  oldGrid :: grid

definition truthy :: "'a::zero option \<Rightarrow> bool" where
  "truthy x = (case x of None \<Rightarrow> False | Some v \<Rightarrow> v \<noteq> 0)"

text \<open>\<^verbatim>\<open>_adjustForStepState\<close>, returning \<open>(cellOffset, value, adjusted)\<close>.\<close>

definition adjustForStepState ::
  "stepState \<Rightarrow> grid \<Rightarrow> nat list \<Rightarrow> nat \<Rightarrow> nat \<Rightarrow> 32 word \<Rightarrow> error + nat \<times> 32 word \<times> bool" where
  "adjustForStepState st g order cellDepth cellOffset value =
     (case stepGuides st of
        None \<Rightarrow> Inl TypeError
      | Some guides \<Rightarrow>
          (let gd = (case guides (step st) of
                       None \<Rightarrow> \<lparr>guideCell = None, guideValue = None\<rparr> | Some gd \<Rightarrow> gd);
               newCellOffset = (if truthy (guideCell gd)
                                then indexOf order (the (guideCell gd)) cellDepth else - 1);
               (cellOffset1, adjusted1) = (if truthy (guideCell gd) \<and> newCellOffset \<noteq> - 1
                                           then (nat newCellOffset, True) else (cellOffset, False));
               cellValues = (ucast (g ! (order ! cellOffset1)) :: 32 word)
           in if truthy (guideValue gd)
              then Inr (cellOffset1, fromValue (the (guideValue gd)), True)
              else if truthy (guideCell gd)
              then Inr (cellOffset1, cellValues AND - cellValues, True)
              else Inr (cellOffset1, value, adjusted1)))"

text \<open>\<^verbatim>\<open>[cellOrder[i], cellOrder[j]] = [cellOrder[j], cellOrder[i]]\<close>\<close>

definition swapCells :: "nat list \<Rightarrow> nat \<Rightarrow> nat \<Rightarrow> nat list" where
  "swapCells order i j = order[i := order ! j, j := order ! i]"

text \<open>The two loops of \<^verbatim>\<open>_updateCellOrder\<close>.\<close>

function skipSingles :: "grid \<Rightarrow> nat list \<Rightarrow> nat \<Rightarrow> nat \<Rightarrow> nat \<times> nat" where
  "skipSingles g order cellOffset frontOffset =
     (if cellOffset = frontOffset \<and> cellOffset < length g
      then (let v = g ! (order ! cellOffset) in
            skipSingles g order (Suc cellOffset)
              (if v AND (v - 1) = 0 then Suc frontOffset else frontOffset))
      else (cellOffset, frontOffset))"
  by pat_completeness auto
termination
  by (relation "measure (\<lambda>(g, order, cellOffset, frontOffset). length g - cellOffset)") auto

declare skipSingles.simps [simp del]

function moveSingles :: "grid \<Rightarrow> nat list \<Rightarrow> nat \<Rightarrow> nat \<Rightarrow> nat list \<times> nat" where
  "moveSingles g order cellOffset frontOffset =
     (if cellOffset < length g
      then (let v = g ! (order ! cellOffset) in
            if v AND (v - 1) = 0
            then moveSingles g (swapCells order cellOffset frontOffset) (Suc cellOffset) (Suc frontOffset)
            else moveSingles g order (Suc cellOffset) frontOffset)
      else (order, frontOffset))"
  by pat_completeness auto
termination
  by (relation "measure (\<lambda>(g, order, cellOffset, frontOffset). length g - cellOffset)") auto

declare moveSingles.simps [simp del]

text \<open>\<^verbatim>\<open>_updateCellOrder(cellDepth, cellOffset, count, grid)\<close>, returning the new order and
  \<open>frontOffset\<close>.\<close>

definition updateCellOrder :: "nat list \<Rightarrow> nat \<Rightarrow> nat \<Rightarrow> nat \<Rightarrow> grid \<Rightarrow> nat list \<times> nat" where
  "updateCellOrder order cellDepth cellOffset count g =
     (let order1 = swapCells order cellOffset cellDepth in
      if count > 1 then (order1, Suc cellDepth)
      else (let (cellOffset1, frontOffset1) = skipSingles g order1 (Suc cellOffset) (Suc cellDepth)
            in moveSingles g order1 cellOffset1 frontOffset1))"

text \<open>
  \<^verbatim>\<open>selectNextCandidate(cellDepth, grid, stepState, isNewNode)\<close>, returning
  \<open>(nextCells, value, count)\<close> and the selector.  \<open>nextCells\<close> is the part of \<open>cellOrder\<close> from
  \<open>cellDepth\<close> up to the returned front.
\<close>

definition selectNextCandidate ::
  "candidateSelector \<Rightarrow> int list \<Rightarrow> nat \<Rightarrow> grid \<Rightarrow> stepState option \<Rightarrow> bool \<Rightarrow>
   error + (nat list \<times> 32 word \<times> nat) \<times> candidateSelector" where
  "selectNextCandidate sel bt cellDepth g stepSt isNewNode =
     (let ((cellOffset, value, count), sel1) = selectBestCandidate sel bt g cellDepth isNewNode;
          adjustedChoice =
            (case stepSt of
               None \<Rightarrow> Inr ((cellOffset, value, count), sel1)
             | Some st \<Rightarrow>
                 (case adjustForStepState st g (cellOrder sel1) cellDepth cellOffset value of
                    Inl e \<Rightarrow> Inl e
                  | Inr (cellOffset', value', adjusted) \<Rightarrow>
                      if adjusted
                      then Inr ((cellOffset', value',
                                 countOnes16bit (g ! (cellOrder sel1 ! cellOffset'))),
                                sel1\<lparr>candidateSelectionState :=
                                       (candidateSelectionState sel1)[cellDepth := None]\<rparr>)
                      else Inr ((cellOffset', value', count), sel1)))
      in case adjustedChoice of
           Inl e \<Rightarrow> Inl e
         | Inr ((cellOffset2, value2, count2), sel2) \<Rightarrow>
             (let (order', nextCellDepth) =
                    updateCellOrder (cellOrder sel2) cellDepth cellOffset2 count2 g
              in Inr ((take (nextCellDepth - cellDepth) (drop cellDepth order'), value2, count2),
                      sel2\<lparr>cellOrder := order'\<rparr>)))"

section \<open>Search driver (SudokuSolver.InternalSolver)\<close>

text \<open>
  The fractional progress numbers are doubles in the source.  The model computes them as
  rationals: it states what the accounting does, not how it rounds.
\<close>

record counters =
  valuesTried :: nat
  nodesSearched :: nat
  backtracks :: nat
  guesses :: nat
  solutions :: nat
  constraintsProcessed :: nat
  progressRatio :: rat
  progressRatioPrev :: rat
  branchesIgnored :: rat

text \<open>
  The state of the solver.  \<open>isDone\<close> is the field \<^verbatim>\<open>done\<close>.  The grid stack \<open>grids\<close> has
  \<open>numCells + 1\<close> mask vectors; its views on one buffer never overlap, so it is a list of
  lists.  \<open>backtrackTriggers\<close> is an \<^verbatim>\<open>Int32Array\<close>; the decay keeps its entries below
  \<open>2 ^ 15\<close> above the cell priorities, far from wrapping, so they are integers.
\<close>

record solver =
  numCells :: nat
  handlers :: "handler list"
  initialGrid :: grid
  grids :: "grid list"
  recStack :: "nat list"
  progressRemainingStack :: "rat list"
  runCounter :: nat
  atStart :: bool
  isDone :: bool
  counters :: counters
  cellPriorities :: "int list"
  backtrackTriggers :: "int list"
  uninterestingValues :: "grid option"
  stepState :: "stepState option"
  handlerAccumulator :: accumulator
  candidateSelector :: candidateSelector



text \<open>\<^verbatim>\<open>_initGrid\<close>: the initial grid holds \<open>allValues = (1 << numValues) - 1\<close> in every cell.\<close>

definition allValues :: "nat \<Rightarrow> mask" where
  "allValues numValues = ucast (push_bit (numValues mod 32) (1 :: 32 word) - 1)"

text \<open>\<^verbatim>\<open>_resetStack()\<close> and \<^verbatim>\<open>reset()\<close>\<close>

definition resetStack :: "solver \<Rightarrow> solver" where
  "resetStack s =
     (let s1 = s\<lparr>candidateSelector := selectorReset (candidateSelector s)\<rparr> in
      if atStart s1 then s1
      else s1\<lparr>runCounter := runCounter s1 + 1, isDone := False, atStart := True,
              grids := (grids s1)[0 := initialGrid s1],
              progressRemainingStack := (progressRemainingStack s1)[0 := 1]\<rparr>)"

definition zeroCounters :: counters where
  "zeroCounters = \<lparr>valuesTried = 0, nodesSearched = 0, backtracks = 0, guesses = 0,
                    solutions = 0, constraintsProcessed = 0, progressRatio = 0,
                    progressRatioPrev = 0, branchesIgnored = 0\<rparr>"

definition reset :: "solver \<Rightarrow> solver" where
  "reset s = resetStack (s\<lparr>stepState := None, counters := zeroCounters,
                           backtrackTriggers := cellPriorities s,
                           uninterestingValues := None\<rparr>)"


text \<open>\<^verbatim>\<open>_hasInterestingSolutions(grid, uninterestingValues)\<close>\<close>

definition hasInterestingSolutions :: "nat \<Rightarrow> grid \<Rightarrow> grid \<Rightarrow> bool" where
  "hasInterestingSolutions n g u = (\<exists>cell \<in> set [0..<n]. g ! cell AND NOT (u ! cell) \<noteq> 0)"

text \<open>\<^verbatim>\<open>setStepState(updates)\<close> for the empty update, as \<^verbatim>\<open>run\<close> calls it.\<close>

definition setStepStateEmpty :: "solver \<Rightarrow> solver" where
  "setStepStateEmpty s =
     (case stepState s of
        None \<Rightarrow> s\<lparr>stepState := Some \<lparr>stepGuides = None, step = 0,
                                       oldGrid = replicate (numCells s) 0\<rparr>\<rparr>
      | Some st \<Rightarrow> s)"

subsection \<open>The generator \<open>run\<close>\<close>

text \<open>
  What an iterator yields.  \<open>evGrid\<close> is the grid at the moment of the yield (the source
  hands out the grid of the stack itself).
\<close>

record event =
  evGrid :: grid
  evOldGrid :: "grid option"
  evIsSolution :: bool
  evCellOrder :: "nat list"
  evValues :: mask
  evHasContradiction :: bool

text \<open>
  A generator object is its suspended frame: the place it is suspended at and its local
  variables.  \<open>iterRunCounter\<close> is the local \<^verbatim>\<open>runCounter\<close>.  Calling \<^verbatim>\<open>run(yieldWhen)\<close> only
  creates the object, at \<open>NotStarted\<close>: the body up to the first \<^verbatim>\<open>yield\<close> runs at the first
  \<^verbatim>\<open>next()\<close>.  \<^verbatim>\<open>run()\<close> without an argument behaves as \<^verbatim>\<open>run(0)\<close>.
\<close>

datatype suspension =
  NotStarted | AfterInitialStep | AfterSolution | AfterContradiction | AfterStep | Finished

record runIter =
  yieldWhen :: nat
  pc :: suspension
  iterRunCounter :: nat
  recDepth :: nat
  isNewNode :: bool
  progressDelta :: rat
  lastContradictionCell :: "int list"
  iterationCounterForUpdates :: nat
  hasContradiction :: bool
  nextDepth :: nat
  branchCell :: nat

definition run :: "nat \<Rightarrow> runIter" where
  "run yw = \<lparr>yieldWhen = yw, pc = NotStarted, iterRunCounter = 0, recDepth = 0,
             isNewNode = False, progressDelta = 0, lastContradictionCell = [],
             iterationCounterForUpdates = 0, hasContradiction = False, nextDepth = 0,
             branchCell = 0\<rparr>"

definition yieldEveryStep :: "runIter \<Rightarrow> bool" where
  "yieldEveryStep it = (yieldWhen it = 1)"

definition yieldOnContradiction :: "runIter \<Rightarrow> nat" where
  "yieldOnContradiction it = (if yieldWhen it > 1 then yieldWhen it else 0)"

datatype nextResult = Yield event | Return


text \<open>The end of a loop round, from \<^verbatim>\<open>if (hasContradiction) continue;\<close> on.\<close>

definition finishIteration :: "runIter \<Rightarrow> solver \<Rightarrow> runIter \<times> solver" where
  "finishIteration it s =
     (if hasContradiction it then (it, s)
      else if (case uninterestingValues s of
                 None \<Rightarrow> False
               | Some u \<Rightarrow> \<not> hasInterestingSolutions (numCells s) (grids s ! recDepth it) u)
      then (it, s\<lparr>counters := (counters s)\<lparr>branchesIgnored :=
                      branchesIgnored (counters s) + progressDelta it\<rparr>\<rparr>)
      else (it\<lparr>recDepth := Suc (recDepth it), isNewNode := True\<rparr>,
            s\<lparr>recStack := (recStack s)[recDepth it := nextDepth it]\<rparr>))"

text \<open>
  The accumulator as the round fills it: cleared, then for every cell of \<open>nextCells\<close> the
  exclusion handler, the auxiliary handlers unless the grid is complete, and the ordinary
  handlers; then the handlers of the last contradiction cell of this level.
\<close>

definition queueForCells :: "nat list \<Rightarrow> bool \<Rightarrow> int \<Rightarrow> accumulator \<Rightarrow> accumulator" where
  "queueForCells nextCells gridIsComplete lastCell acc =
     (let acc1 = fold (\<lambda>c a. addForCell c
                               (if gridIsComplete then addForFixedCell c a
                                else addAuxForCell c (addForFixedCell c a)))
                      nextCells (clear acc)
      in if lastCell \<ge> 0 then addForCell (nat lastCell) acc1 else acc1)"

text \<open>
  The first half of a round once a candidate is chosen (the source from
  \<^verbatim>\<open>const nextDepth = cellDepth + nextCells.length\<close> to \<^verbatim>\<open>grid[cell] = value\<close>): the
  progress of the branch, the decay of the backtrack triggers, the new frame of a guess
  and the assignment.  \<open>value\<close> is a JavaScript number; the grid keeps its low 16 bits.
\<close>

definition chooseBranch ::
  "runIter \<Rightarrow> solver \<Rightarrow> nat \<Rightarrow> nat list \<Rightarrow> 32 word \<Rightarrow> nat \<Rightarrow> runIter \<times> solver" where
  "chooseBranch it s cellDepth nextCells value count =
     (let d = recDepth it;
          cell = hd nextCells;
          g = grids s ! d;
          s1 = (if yieldEveryStep it
                then s\<lparr>stepState := map_option (\<lambda>st. st\<lparr>oldGrid := g\<rparr>) (stepState s)\<rparr> else s);
          delta = progressRemainingStack s1 ! d / of_nat count;
          s2 = s1\<lparr>progressRemainingStack :=
                    (progressRemainingStack s1)[d := progressRemainingStack s1 ! d - delta],
                  counters := (counters s1)\<lparr>valuesTried :=
                    valuesTried (counters s1) + length nextCells\<rparr>\<rparr>;
          n1 = Suc (iterationCounterForUpdates it);
          decay = (n1 mod 2 ^ 14 = 0);
          s3 = (if decay
                then s2\<lparr>backtrackTriggers := map (\<lambda>x. x div 2) (backtrackTriggers s2)\<rparr> else s2);
          it1 = it\<lparr>progressDelta := delta,
                   iterationCounterForUpdates := (if decay then n1 mod 2 ^ 30 else n1),
                   nextDepth := cellDepth + length nextCells, branchCell := cell\<rparr>;
          (it2, s4) =
            (if count \<noteq> 1
             then (let g1 = g[cell := ucast (ucast (g ! cell) XOR value)] in
                   (it1\<lparr>recDepth := Suc d\<rparr>,
                    s3\<lparr>counters := (counters s3)\<lparr>guesses := Suc (guesses (counters s3))\<rparr>,
                       grids := (grids s3)[d := g1, Suc d := g1]\<rparr>))
             else (it1, s3));
          d' = recDepth it2
      in (it2, s4\<lparr>grids := (grids s4)[d' := (grids s4 ! d')[cell := ucast value]]\<rparr>))"

text \<open>
  The second half of the round (from \<^verbatim>\<open>const gridIsComplete\<close> to the end of the loop
  body): propagation, the bookkeeping of a contradiction, and the yields.  The result is
  the yielded event, if the round ends in a \<^verbatim>\<open>yield\<close>, with the iterator and the solver.
  The progress callback only reads the state and is not modelled.
\<close>

definition propagateBranch ::
  "nat \<Rightarrow> runIter \<Rightarrow> solver \<Rightarrow> nat \<Rightarrow> nat list \<Rightarrow> 32 word \<Rightarrow> nat \<Rightarrow>
   ((error + event option) \<times> runIter \<times> solver) option" where
  "propagateBranch fuel it2 s4 cellDepth nextCells value count =
     (let d' = recDepth it2;
          cell = hd nextCells;
          delta = progressDelta it2;
          gridIsComplete = (nextDepth it2 = numCells s4);
          lastCell = lastContradictionCell it2 ! cellDepth;
          acc = queueForCells nextCells gridIsComplete lastCell (handlerAccumulator s4);
          it3 = (if lastCell \<ge> 0 \<and> count = 1
                 then it2\<lparr>lastContradictionCell := (lastContradictionCell it2)[cellDepth := - 1]\<rparr>
                 else it2)
      in case enforceConstraints fuel (handlers s4) gridIsComplete
                (grids s4 ! d', acc, constraintsProcessed (counters s4)) of
           None \<Rightarrow> None
         | Some (Inl e) \<Rightarrow> Some (Inl e, it3\<lparr>pc := Finished\<rparr>, s4)
         | Some (Inr (ok, g3, acc', processed)) \<Rightarrow>
             (let s5 = s4\<lparr>grids := (grids s4)[d' := g3], handlerAccumulator := acc',
                         counters := (counters s4)\<lparr>constraintsProcessed := processed\<rparr>\<rparr>;
                  it4 = it3\<lparr>hasContradiction := \<not> ok\<rparr>;
                  it5 = (if \<not> ok \<and> cellDepth > 0
                         then it4\<lparr>lastContradictionCell :=
                                   (lastContradictionCell it4)[cellDepth - 1 := int cell]\<rparr>
                         else it4);
                  s6 = (if \<not> ok
                        then s5\<lparr>counters := (counters s5)\<lparr>
                                  progressRatio := progressRatio (counters s5) + delta,
                                  backtracks := Suc (backtracks (counters s5))\<rparr>,
                                backtrackTriggers := (backtrackTriggers s5)
                                  [cell := backtrackTriggers s5 ! cell + 1]\<rparr>
                        else s5)
              in if \<not> ok \<and> yieldOnContradiction it5 \<noteq> 0 \<and>
                    backtracks (counters s6) mod yieldOnContradiction it5 = 0
                 then Some (Inr (Some \<lparr>evGrid = grids s6 ! d', evOldGrid = None,
                                        evIsSolution = False,
                                        evCellOrder = take cellDepth (cellOrder (candidateSelector s6)),
                                        evValues = 0, evHasContradiction = True\<rparr>),
                            it5\<lparr>pc := AfterContradiction\<rparr>, s6)
                 else if yieldEveryStep it5
                 then (let s7 = s6\<lparr>grids := (grids s6)[d' := (grids s6 ! d')[cell := ucast value]]\<rparr>;
                           old = (case stepState s7 of None \<Rightarrow> [] | Some st \<Rightarrow> oldGrid st)
                       in Some (Inr (Some \<lparr>evGrid = grids s7 ! d', evOldGrid = Some old,
                                             evIsSolution = False,
                                             evCellOrder = take (Suc cellDepth)
                                                             (cellOrder (candidateSelector s7)),
                                             evValues = old ! cell,
                                             evHasContradiction = \<not> ok\<rparr>),
                                 it5\<lparr>pc := AfterStep\<rparr>, s7))
                 else (case finishIteration it5 s6 of (it6, s7) \<Rightarrow> Some (Inr None, it6, s7))))"

definition branchRound ::
  "nat \<Rightarrow> runIter \<Rightarrow> solver \<Rightarrow> nat \<Rightarrow> nat list \<Rightarrow> 32 word \<Rightarrow> nat \<Rightarrow>
   ((error + event option) \<times> runIter \<times> solver) option" where
  "branchRound fuel it s cellDepth nextCells value count =
     (case chooseBranch it s cellDepth nextCells value count of
        (it2, s4) \<Rightarrow> propagateBranch fuel it2 s4 cellDepth nextCells value count)"

text \<open>
  One round of \<^verbatim>\<open>while (recDepth)\<close>, for \<open>recDepth > 0\<close>: the solution test, the choice of
  the candidate, and the round above.
\<close>

definition loopRound ::
  "nat \<Rightarrow> runIter \<Rightarrow> solver \<Rightarrow> ((error + event option) \<times> runIter \<times> solver) option" where
  "loopRound fuel it s =
     (let d = recDepth it - 1;
          cellDepth = recStack s ! d;
          wasNewNode = isNewNode it;
          it1 = it\<lparr>recDepth := d, isNewNode := False\<rparr>
      in if wasNewNode \<and> cellDepth = numCells s
         then Some (Inr (Some \<lparr>evGrid = grids s ! d, evOldGrid = None, evIsSolution = True,
                                evCellOrder = cellOrder (candidateSelector s),
                                evValues = 0, evHasContradiction = False\<rparr>),
                    it1\<lparr>pc := AfterSolution\<rparr>,
                    s\<lparr>counters := (counters s)\<lparr>
                         progressRatio := progressRatio (counters s) + progressDelta it,
                         solutions := Suc (solutions (counters s))\<rparr>\<rparr>)
         else
           (let s1 = (if wasNewNode
                      then s\<lparr>progressRemainingStack :=
                               (progressRemainingStack s)[d := progressDelta it],
                             counters := (counters s)\<lparr>nodesSearched :=
                               Suc (nodesSearched (counters s))\<rparr>\<rparr>
                      else s)
            in case selectNextCandidate (candidateSelector s1) (backtrackTriggers s1) cellDepth
                      (grids s1 ! d) (stepState s1) wasNewNode of
                 Inl e \<Rightarrow> Some (Inl e, it1\<lparr>pc := Finished\<rparr>, s1)
               | Inr ((nextCells, value, count), sel') \<Rightarrow>
                   (let s2 = s1\<lparr>candidateSelector := sel'\<rparr> in
                    if count = 0 then Some (Inr None, it1, s2)
                    else branchRound fuel it1 s2 cellDepth nextCells value count)))"

text \<open>The loop \<^verbatim>\<open>while (recDepth) { ... }\<close> up to its next \<^verbatim>\<open>yield\<close>, and \<^verbatim>\<open>this.done = true\<close>.\<close>

fun runLoop ::
  "nat \<Rightarrow> runIter \<Rightarrow> solver \<Rightarrow> ((error + nextResult) \<times> runIter \<times> solver) option" where
  "runLoop 0 it s = None"
| "runLoop (Suc n) it s =
     (if recDepth it = 0 then Some (Inr Return, it\<lparr>pc := Finished\<rparr>, s\<lparr>isDone := True\<rparr>)
      else case loopRound (Suc n) it s of
        None \<Rightarrow> None
      | Some (Inl e, it', s') \<Rightarrow> Some (Inl e, it', s')
      | Some (Inr (Some ev), it', s') \<Rightarrow> Some (Inr (Yield ev), it', s')
      | Some (Inr None, it', s') \<Rightarrow> runLoop n it' s')"

text \<open>The locals of the loop as the source sets them before it.\<close>

definition enterLoop :: "runIter \<Rightarrow> solver \<Rightarrow> runIter \<times> solver" where
  "enterLoop it s =
     (it\<lparr>recDepth := 1, isNewNode := True, progressDelta := 1,
         lastContradictionCell := replicate (numCells s) (- 1)\<rparr>,
      s\<lparr>recStack := (recStack s)[0 := 0]\<rparr>)"

text \<open>The body of \<^verbatim>\<open>run\<close> up to its first \<^verbatim>\<open>yield\<close>.\<close>

definition startRun ::
  "nat \<Rightarrow> runIter \<Rightarrow> solver \<Rightarrow> ((error + nextResult) \<times> runIter \<times> solver) option" where
  "startRun fuel it s =
     (if \<not> atStart s then Some (Inl StateNotInitial, it\<lparr>pc := Finished\<rparr>, s)
      else
        (let s1 = s\<lparr>atStart := False, runCounter := Suc (runCounter s),
                    counters := (counters s)\<lparr>
                      progressRatioPrev := progressRatioPrev (counters s) + progressRatio (counters s),
                      progressRatio := 0\<rparr>\<rparr>;
             it1 = it\<lparr>iterRunCounter := Suc (runCounter s), iterationCounterForUpdates := 0\<rparr>;
             acc = fold addForCell [0..<numCells s1] (clear (handlerAccumulator s1))
         in case enforceConstraints fuel (handlers s1) False
                   (grids s1 ! 0, acc, constraintsProcessed (counters s1)) of
              None \<Rightarrow> None
            | Some (Inl e) \<Rightarrow> Some (Inl e, it1\<lparr>pc := Finished\<rparr>, s1)
            | Some (Inr (ok, g', acc', processed)) \<Rightarrow>
                (let s2 = s1\<lparr>grids := (grids s1)[0 := g'], handlerAccumulator := acc',
                            counters := (counters s1)\<lparr>constraintsProcessed := processed\<rparr>\<rparr>
                 in if yieldEveryStep it1
                    then (let s3 = setStepStateEmpty s2 in
                          Some (Inr (Yield \<lparr>evGrid = grids s3 ! 0, evOldGrid = None,
                                             evIsSolution = False, evCellOrder = [],
                                             evValues = 0, evHasContradiction = False\<rparr>),
                                it1\<lparr>pc := AfterInitialStep\<rparr>, s3))
                    else (case enterLoop it1 s2 of (it2, s3) \<Rightarrow> runLoop fuel it2 s3))))"

text \<open>\<^verbatim>\<open>checkRunCounter\<close>\<close>

definition checkRunCounter :: "runIter \<Rightarrow> solver \<Rightarrow> bool" where
  "checkRunCounter it s = (iterRunCounter it = runCounter s)"

text \<open>
  \<^verbatim>\<open>iterator.next()\<close>: the generator resumes behind the \<^verbatim>\<open>yield\<close> it is suspended at and
  runs to its next \<^verbatim>\<open>yield\<close>, to its end, or to a \<^verbatim>\<open>throw\<close>.  Behind the \<^verbatim>\<open>yield\<close> of a
  contradiction the source has no \<^verbatim>\<open>checkRunCounter()\<close>; that yield only exists for
  \<open>yieldWhen > 1\<close>, where the rest of the round is \<^verbatim>\<open>continue\<close>.
\<close>

definition advance ::
  "nat \<Rightarrow> runIter \<Rightarrow> solver \<Rightarrow> ((error + nextResult) \<times> runIter \<times> solver) option" where
  "advance fuel it s =
     (case pc it of
        NotStarted \<Rightarrow> startRun fuel it s
      | AfterInitialStep \<Rightarrow>
          if \<not> checkRunCounter it s then Some (Inl IteratorNoLongerValid, it\<lparr>pc := Finished\<rparr>, s)
          else (case enterLoop it (s\<lparr>stepState := map_option (\<lambda>st. st\<lparr>step := 1\<rparr>) (stepState s)\<rparr>)
                of (it1, s1) \<Rightarrow> runLoop fuel it1 s1)
      | AfterSolution \<Rightarrow>
          if \<not> checkRunCounter it s then Some (Inl IteratorNoLongerValid, it\<lparr>pc := Finished\<rparr>, s)
          else runLoop fuel it s
      | AfterContradiction \<Rightarrow> runLoop fuel it s
      | AfterStep \<Rightarrow>
          if \<not> checkRunCounter it s then Some (Inl IteratorNoLongerValid, it\<lparr>pc := Finished\<rparr>, s)
          else (case finishIteration it
                       (s\<lparr>stepState := map_option (\<lambda>st. st\<lparr>step := Suc (step st)\<rparr>) (stepState s)\<rparr>)
                of (it1, s1) \<Rightarrow> runLoop fuel it1 s1)
      | Finished \<Rightarrow> Some (Inr Return, it, s))"


subsection \<open>\<open>solveAllPossibilities\<close> and \<open>validateLayout\<close>\<close>

text \<open>
  \<^verbatim>\<open>solveAllPossibilities(solutions, valuesInSolutions)\<close>: the loop over the iterator
  \<^verbatim>\<open>this.run()\<close>.  Once \<^verbatim>\<open>counters.solutions == 2\<close> the field \<^verbatim>\<open>_uninterestingValues\<close> is the
  array \<^verbatim>\<open>valuesInSolutions\<close> itself, so from then on (\<open>aliased\<close>) every update of the union
  is an update of the field.
\<close>

fun solveAllLoop ::
  "nat \<Rightarrow> runIter \<Rightarrow> solver \<Rightarrow> bool \<Rightarrow> grid list \<Rightarrow> grid \<Rightarrow>
   (error + grid list \<times> grid \<times> solver) option" where
  "solveAllLoop 0 it s aliased sols valuesInSolutions = None"
| "solveAllLoop (Suc n) it s aliased sols valuesInSolutions =
     (case advance (Suc n) it s of
        None \<Rightarrow> None
      | Some (Inl e, it', s') \<Rightarrow> Some (Inl e)
      | Some (Inr Return, it', s') \<Rightarrow> Some (Inr (sols, valuesInSolutions, s'))
      | Some (Inr (Yield result), it', s') \<Rightarrow>
          (let values' = map2 (OR) valuesInSolutions (evGrid result);
               aliased' = (aliased \<or> solutions (counters s') = 2);
               s'' = (if aliased' then s'\<lparr>uninterestingValues := Some values'\<rparr> else s')
           in solveAllLoop n it' s'' aliased' (sols @ [evGrid result]) values'))"

text \<open>\<^verbatim>\<open>SudokuSolver.Util.makePencilmarks(grid)\<close>\<close>

definition makePencilmarks :: "grid \<Rightarrow> nat set list" where
  "makePencilmarks g = map (\<lambda>v. set (toValuesArray (ucast v))) g"

text \<open>
  \<^verbatim>\<open>SudokuSolver.solveAllPossibilities()\<close> of the facade: reset, run the above on a zeroed
  union, and turn the union into pencilmarks.
\<close>

definition solveAllPossibilities :: "nat \<Rightarrow> solver \<Rightarrow> (error + nat set list \<times> solver) option" where
  "solveAllPossibilities fuel s =
     (case solveAllLoop fuel (run 0) (reset s) False [] (replicate (numCells s) 0) of
        None \<Rightarrow> None
      | Some (Inl e) \<Rightarrow> Some (Inl e)
      | Some (Inr (sols, valuesInSolutions, s')) \<Rightarrow>
          Some (Inr (makePencilmarks valuesInSolutions, s')))"

text \<open>
  \<^verbatim>\<open>validateLayout()\<close>.  \<open>fillHouse\<close> writes \<^verbatim>\<open>1 << i\<close> into the \<open>i\<close>-th cell of the house.  An
  attempt returns \<open>Some True\<close>, \<open>Some False\<close> or \<open>None\<close> for \<^verbatim>\<open>undefined\<close>.  The attempt log
  holds the position of the house among the house handlers and the progress ratio.
\<close>

definition fillHouse :: "handler \<Rightarrow> solver \<Rightarrow> solver" where
  "fillHouse house s =
     s\<lparr>grids := (grids s)[0 :=
          fold (\<lambda>(c, i) g. g[c := ucast (push_bit (i mod 32) (1 :: 32 word))])
               (zip (cells house) [0..<length (cells house)]) (grids s ! 0)]\<rparr>"

definition SEARCH_LIMIT :: nat where
  "SEARCH_LIMIT = 200"

definition attempt :: "nat \<Rightarrow> handler \<Rightarrow> solver \<Rightarrow> (error + bool option \<times> solver) option" where
  "attempt fuel house s =
     (let s1 = fillHouse house (resetStack s);
          s2 = s1\<lparr>backtrackTriggers := map (\<lambda>x. x div 2) (backtrackTriggers s1)\<rparr>
      in case advance fuel (run SEARCH_LIMIT) s2 of
           None \<Rightarrow> None
         | Some (Inl e, it', s') \<Rightarrow> Some (Inl e)
         | Some (Inr Return, it', s') \<Rightarrow> Some (Inr (Some False, s'))
         | Some (Inr (Yield result), it', s') \<Rightarrow>
             if evIsSolution result
             then Some (Inr (Some True,
                    s'\<lparr>counters := (counters s')\<lparr>branchesIgnored :=
                          1 - progressRatio (counters s')\<rparr>\<rparr>))
             else Some (Inr (None, s')))"

text \<open>The loop \<^verbatim>\<open>for (const house of houseHandlers)\<close>, over the positions of the houses.\<close>

fun attemptHouses ::
  "nat \<Rightarrow> handler list \<Rightarrow> nat list \<Rightarrow> (nat \<times> rat) list \<Rightarrow> solver \<Rightarrow>
   (error + bool option \<times> (nat \<times> rat) list \<times> solver) option" where
  "attemptHouses fuel houses [] attemptLog s = Some (Inr (None, attemptLog, s))"
| "attemptHouses fuel houses (k # ks) attemptLog s =
     (case attempt fuel (houses ! k) s of
        None \<Rightarrow> None
      | Some (Inl e) \<Rightarrow> Some (Inl e)
      | Some (Inr (Some result, s')) \<Rightarrow> Some (Inr (Some result, attemptLog, s'\<lparr>isDone := True\<rparr>))
      | Some (Inr (None, s')) \<Rightarrow>
          attemptHouses fuel houses ks
            (attemptLog @ [(k, progressRatio (counters s'))]) s')"

text \<open>
  \<^verbatim>\<open>attemptLog.sort((a, b) => b[1] - a[1])\<close> is a stable sort by descending progress
  ratio; \<^verbatim>\<open>attemptLog[0][0]\<close> of an empty log is a \<^verbatim>\<open>TypeError\<close>.
\<close>

definition sortAttempts :: "(nat \<times> rat) list \<Rightarrow> (nat \<times> rat) list" where
  "sortAttempts attemptLog = sort_key (\<lambda>a. - snd a) attemptLog"

definition validateLayout :: "nat \<Rightarrow> solver \<Rightarrow> (error + bool \<times> solver) option" where
  "validateLayout fuel s =
     (let houses = filter isHouse (handlers s) in
      case attemptHouses fuel houses [0..<length houses] [] s of
        None \<Rightarrow> None
      | Some (Inl e) \<Rightarrow> Some (Inl e)
      | Some (Inr (Some result, attemptLog, s')) \<Rightarrow> Some (Inr (result, s'))
      | Some (Inr (None, attemptLog, s')) \<Rightarrow>
          (case sortAttempts attemptLog of
             [] \<Rightarrow> Some (Inl TypeError)
           | best # rest \<Rightarrow>
               (let s1 = fillHouse (houses ! fst best) (resetStack s') in
                case advance fuel (run 0) s1 of
                  None \<Rightarrow> None
                | Some (Inl e, it', s2) \<Rightarrow> Some (Inl e)
                | Some (Inr Return, it', s2) \<Rightarrow> Some (Inr (False, s2\<lparr>isDone := True\<rparr>))
                | Some (Inr (Yield result), it', s2) \<Rightarrow> Some (Inr (True, s2\<lparr>isDone := True\<rparr>)))))"

section \<open>Example solvers\<close>




section \<open>Iterator invalidation\<close>

text \<open>
  Behind the yields of a solution and of a step (and the first yield of step mode) the
  generator calls \<^verbatim>\<open>checkRunCounter()\<close>: an iterator suspended there whose run counter is
  no longer the solver's throws when it is advanced.
\<close>

lemma stale_iterator_throws:
  assumes "pc it = AfterInitialStep \<or> pc it = AfterSolution \<or> pc it = AfterStep"
    and "iterRunCounter it \<noteq> runCounter s"
  shows "advance fuel it s = Some (Inl IteratorNoLongerValid, it\<lparr>pc := Finished\<rparr>, s)"
  using assms by (auto simp: advance_def checkRunCounter_def)

lemma reset_bumps_runCounter:
  "\<not> atStart s \<Longrightarrow> runCounter (reset s) = Suc (runCounter s)"
  by (simp add: reset_def resetStack_def Let_def)


section \<open>The guess step\<close>








section \<open>Unsatisfiable initialization\<close>













end
